theory Spec2Isabelle
  imports Main "HOL-Library.Char_ord" "HOL-Library.List_Lexorder"
begin

section \<open>The Qt collaborators of ctkSettingsPanel\<close>

text \<open>
  The settings panel of \<^verbatim>\<open>Libs/Widgets/ctkSettingsPanel.cpp\<close> binds properties of
  live \<^verbatim>\<open>QObject\<close>s to the keys of a \<^verbatim>\<open>QSettings\<close> store. The Qt classes are
  not part of the repository; this section fixes the part of their contract the panel
  relies on.

  \<^item> A \<^verbatim>\<open>QVariant\<close> is either invalid or holds a typed value; \<^verbatim>\<open>operator==\<close> is
    taken as equality of the held values (Qt's implicit conversions between numeric
    types are not modelled).
  \<^item> A \<^verbatim>\<open>QObject\<close> has a meta-object listing its declared properties (name and type
    name) and a current value for every property name. \<^verbatim>\<open>setProperty\<close> on a declared
    property stores a value of the declared type and returns true; a value of another
    type (an invalid one included) is refused and false is returned. On an undeclared
    name it stores a dynamic property and returns false.
  \<^item> A \<^verbatim>\<open>QSettings\<close> is a key-value map with a status; \<^verbatim>\<open>status()\<close> is the first
    error the store met, which a write to the map does not change.
\<close>

datatype QVariant =
    Invalid
  | VBool bool
  | VInt int
  | VString string
  | VStringList "string list"

definition isValid :: "QVariant \<Rightarrow> bool" where
  "isValid v = (v \<noteq> Invalid)"

text \<open>\<^verbatim>\<open>QVariant::typeName()\<close>; a null pointer for the invalid variant.\<close>

fun QVariant_typeName :: "QVariant \<Rightarrow> string option" where
  "QVariant_typeName Invalid = None"
| "QVariant_typeName (VBool b) = Some ''bool''"
| "QVariant_typeName (VInt i) = Some ''int''"
| "QVariant_typeName (VString s) = Some ''QString''"
| "QVariant_typeName (VStringList l) = Some ''QStringList''"

record QMetaProperty =
  mp_name :: string
  mp_typeName :: string

record QObject =
  metaObject :: "QMetaProperty list"
  propertyValues :: "string \<Rightarrow> QVariant"

definition QObject_property :: "QObject \<Rightarrow> string \<Rightarrow> QVariant" where
  "QObject_property obj n = propertyValues obj n"

definition QObject_setProperty :: "string \<Rightarrow> QVariant \<Rightarrow> QObject \<Rightarrow> bool \<times> QObject" where
  "QObject_setProperty n v obj =
     (case find (\<lambda>m. mp_name m = n) (metaObject obj) of
        None \<Rightarrow> (False, obj\<lparr>propertyValues := (propertyValues obj)(n := v)\<rparr>)
      | Some m \<Rightarrow>
          if QVariant_typeName v = Some (mp_typeName m)
          then (True, obj\<lparr>propertyValues := (propertyValues obj)(n := v)\<rparr>)
          else (False, obj))"

datatype QSettings_Status = NoError | AccessError | FormatError

record QSettings =
  entries :: "string \<rightharpoonup> QVariant"
  status :: QSettings_Status

definition QSettings_contains :: "QSettings \<Rightarrow> string \<Rightarrow> bool" where
  "QSettings_contains s key = (entries s key \<noteq> None)"

definition QSettings_value :: "QSettings \<Rightarrow> string \<Rightarrow> QVariant" where
  "QSettings_value s key = (case entries s key of None \<Rightarrow> Invalid | Some v \<Rightarrow> v)"

definition QSettings_setValue :: "string \<Rightarrow> QVariant \<Rightarrow> QSettings \<Rightarrow> QSettings" where
  "QSettings_setValue key v s = s\<lparr>entries := (entries s)(key \<mapsto> v)\<rparr>"

text \<open>The integer of a \<^verbatim>\<open>QSettings::Status\<close>, as \<^verbatim>\<open>QString::arg(int)\<close> prints it.\<close>

fun QSettings_Status_number :: "QSettings_Status \<Rightarrow> string" where
  "QSettings_Status_number NoError = ''0''"
| "QSettings_Status_number AccessError = ''1''"
| "QSettings_Status_number FormatError = ''2''"

section \<open>PropertyType: one tracked property\<close>

text \<open>
  A pointer is an address or null (\<open>None\<close>); the live objects are a heap from
  addresses to objects, so that two tracked properties may share their target.
\<close>

type_synonym address = nat

record PropertyType =
  Object :: "address option"
  Property :: string
  PreviousValue :: QVariant
  DefaultValue :: QVariant
  Label :: string
  Options :: nat

text \<open>The constructor: a null object, no options, empty strings, invalid variants.\<close>

definition PropertyType_new :: PropertyType where
  "PropertyType_new =
     \<lparr>Object = None, Property = [], PreviousValue = Invalid, DefaultValue = Invalid,
      Label = [], Options = 0\<rparr>"

text \<open>\<^verbatim>\<open>PropertyType::value() const\<close>.\<close>

definition PropertyType_value :: "PropertyType \<Rightarrow> (address \<Rightarrow> QObject) \<Rightarrow> QVariant" where
  "PropertyType_value p objs =
     (case Object p of
        None \<Rightarrow> Invalid
      | Some a \<Rightarrow> if Property p = [] then Invalid else QObject_property (objs a) (Property p))"

text \<open>
  \<^verbatim>\<open>PropertyType::metaProperty()\<close>: the first declared property of the object with
  the tracked name, or the invalid \<^verbatim>\<open>QMetaProperty()\<close> (\<open>None\<close>), whose type name is a
  null pointer.
\<close>

definition PropertyType_metaProperty :: "PropertyType \<Rightarrow> (address \<Rightarrow> QObject) \<Rightarrow> QMetaProperty option" where
  "PropertyType_metaProperty p objs =
     (case Object p of
        None \<Rightarrow> None
      | Some a \<Rightarrow> find (\<lambda>m. mp_name m = Property p) (metaObject (objs a)))"

text \<open>
  A failed \<^verbatim>\<open>Q_ASSERT\<close> aborts the process when assertions are compiled in and does
  nothing when they are compiled out (\<^verbatim>\<open>QT_NO_DEBUG\<close>); the macro is Qt's, so whether
  assertions are active is a parameter of the model.
\<close>

datatype error = AssertionFailed

text \<open>
  \<^verbatim>\<open>PropertyType::setValue\<close>. The first argument says whether \<^verbatim>\<open>Q_ASSERT\<close> is
  active. The result is the returned flag and the heap after the write.
\<close>

definition PropertyType_setValue ::
  "bool \<Rightarrow> PropertyType \<Rightarrow> QVariant \<Rightarrow> (address \<Rightarrow> QObject) \<Rightarrow> error + (bool \<times> (address \<Rightarrow> QObject))" where
  "PropertyType_setValue asserts p val objs =
     (case Object p of
        None \<Rightarrow> if asserts then Inl AssertionFailed else Inr (False, objs)
      | Some a \<Rightarrow>
          if Property p = [] then (if asserts then Inl AssertionFailed else Inr (False, objs))
          else
            let v = (if map_option mp_typeName (PropertyType_metaProperty p objs) = Some ''QStringList''
                        \<and> \<not> isValid val
                     then VStringList [] else val);
                r = QObject_setProperty (Property p) v (objs a)
            in if asserts \<and> \<not> fst r then Inl AssertionFailed
               else Inr (fst r, objs(a := snd r)))"

section \<open>QMap from keys to tracked properties\<close>

text \<open>
  A \<^verbatim>\<open>QMap<QString, PropertyType>\<close> keeps its entries in key order; \<^verbatim>\<open>keys()\<close> lists
  them in that order.
\<close>

type_synonym QMap = "(string \<times> PropertyType) list"

definition QMap_keys :: "QMap \<Rightarrow> string list" where
  "QMap_keys m = map fst m"

definition QMap_contains :: "QMap \<Rightarrow> string \<Rightarrow> bool" where
  "QMap_contains m key = (map_of m key \<noteq> None)"

text \<open>\<^verbatim>\<open>QMap::value(key)\<close> and the const \<^verbatim>\<open>operator[]\<close>: a default-constructed value
  for an absent key.\<close>

definition QMap_value :: "QMap \<Rightarrow> string \<Rightarrow> PropertyType" where
  "QMap_value m key = (case map_of m key of None \<Rightarrow> PropertyType_new | Some p \<Rightarrow> p)"

text \<open>\<^verbatim>\<open>QMap::insert\<close>: replaces the value of a present key, else inserts in key order.\<close>

fun QMap_insert :: "string \<Rightarrow> PropertyType \<Rightarrow> QMap \<Rightarrow> QMap" where
  "QMap_insert key p [] = [(key, p)]"
| "QMap_insert key p ((k, q) # m) =
     (if key = k then (key, p) # m
      else if key < k then (key, p) # (k, q) # m
      else (k, q) # QMap_insert key p m)"

text \<open>The non-const \<^verbatim>\<open>operator[]\<close> inserts a default-constructed value for an absent
  key before it returns the reference.\<close>

definition QMap_index :: "string \<Rightarrow> QMap \<Rightarrow> QMap" where
  "QMap_index key m = (if QMap_contains m key then m else QMap_insert key PropertyType_new m)"

section \<open>ctkSettingsPanel\<close>

text \<open>
  The private data of the panel (\<open>Settings\<close>, \<open>Properties\<close>,
  \<open>SaveToSettingsWhenRegister\<close>) together with what its operations read and write
  outside it: the heap of live objects, the heap of stores, the signal connections made
  by \<^verbatim>\<open>registerProperty\<close>, the warnings given to the logger, the
  \<^verbatim>\<open>settingChanged(key, value)\<close> signals emitted, and whether \<^verbatim>\<open>Q_ASSERT\<close> is active.
\<close>

record ctkSettingsPanel =
  Settings :: "address option"
  Properties :: QMap
  SaveToSettingsWhenRegister :: bool
  objects :: "address \<Rightarrow> QObject"
  stores :: "address \<Rightarrow> QSettings"
  connections :: "(address option \<times> string \<times> string) list"
  warnings :: "string list"
  settingChanged :: "(string \<times> QVariant) list"
  assertions :: bool

text \<open>The text of the warning of \<^verbatim>\<open>setSetting\<close>:
  \<^verbatim>\<open>Error #%1 while writing setting "%2"\<close>.\<close>

definition write_warning :: "QSettings_Status \<Rightarrow> string \<Rightarrow> string" where
  "write_warning st key =
     ''Error #'' @ QSettings_Status_number st @ '' while writing setting '' @ [CHR 0x22] @ key @ [CHR 0x22]"

text \<open>\<^verbatim>\<open>ctkSettingsPanel::setSetting(key, newVal)\<close>.\<close>

definition setSetting :: "string \<Rightarrow> QVariant \<Rightarrow> ctkSettingsPanel \<Rightarrow> error + ctkSettingsPanel" where
  "setSetting key newVal st =
     (case Settings st of
        None \<Rightarrow> Inr st
      | Some s \<Rightarrow>
          let oldVal = QSettings_value (stores st s) key;
              st1 = st\<lparr>stores := (stores st)(s := QSettings_setValue key newVal (stores st s))\<rparr>;
              st2 = st1\<lparr>Properties := QMap_index key (Properties st1)\<rparr>
          in case PropertyType_setValue (assertions st2) (QMap_value (Properties st2) key) newVal (objects st2) of
               Inl e \<Rightarrow> Inl e
             | Inr r \<Rightarrow>
                 let st3 = st2\<lparr>objects := snd r\<rparr>;
                     st4 = (if status (stores st3 s) \<noteq> NoError
                            then st3\<lparr>warnings := warnings st3 @ [write_warning (status (stores st3 s)) key]\<rparr>
                            else st3);
                     st5 = (if oldVal \<noteq> newVal
                            then st4\<lparr>settingChanged := settingChanged st4 @ [(key, newVal)]\<rparr>
                            else st4)
                 in Inr st5)"

text \<open>\<^verbatim>\<open>ctkSettingsPanel::updateSetting(key)\<close>.\<close>

definition updateSetting :: "string \<Rightarrow> ctkSettingsPanel \<Rightarrow> error + ctkSettingsPanel" where
  "updateSetting key st =
     (case Settings st of
        None \<Rightarrow> Inr st
      | Some s \<Rightarrow>
          let st1 = st\<lparr>Properties := QMap_index key (Properties st)\<rparr>
          in setSetting key (PropertyType_value (QMap_value (Properties st1) key) (objects st1)) st1)"

text \<open>A \<^verbatim>\<open>foreach\<close> loop whose body may abort.\<close>

fun foreach :: "'k list \<Rightarrow> ('k \<Rightarrow> 's \<Rightarrow> error + 's) \<Rightarrow> 's \<Rightarrow> error + 's" where
  "foreach [] body st = Inr st"
| "foreach (k # ks) body st =
     (case body k st of Inl e \<Rightarrow> Inl e | Inr st' \<Rightarrow> foreach ks body st')"

text \<open>The body of the loop of \<^verbatim>\<open>ctkSettingsPanel::updateProperties\<close>, for the store
  at address \<open>s\<close>: the loop reads \<^verbatim>\<open>d->Settings\<close> in every round, and no round
  assigns it.\<close>

definition updateProperties_body :: "address \<Rightarrow> string \<Rightarrow> ctkSettingsPanel \<Rightarrow> error + ctkSettingsPanel" where
  "updateProperties_body s key st =
     (if QSettings_contains (stores st s) key then
        let v = QSettings_value (stores st s) key;
            st1 = st\<lparr>Properties := QMap_index key (Properties st)\<rparr>;
            p = QMap_value (Properties st1) key
        in case PropertyType_setValue (assertions st1) p v (objects st1) of
             Inl e \<Rightarrow> Inl e
           | Inr r \<Rightarrow>
               Inr (st1\<lparr>objects := snd r,
                        Properties := QMap_insert key (p\<lparr>PreviousValue := v\<rparr>) (Properties st1)\<rparr>)
      else updateSetting key st)"

text \<open>\<^verbatim>\<open>ctkSettingsPanel::updateProperties()\<close>.\<close>

definition updateProperties :: "ctkSettingsPanel \<Rightarrow> error + ctkSettingsPanel" where
  "updateProperties st =
     (case Settings st of
        None \<Rightarrow> Inr st
      | Some s \<Rightarrow> foreach (QMap_keys (Properties st)) (updateProperties_body s) st)"

text \<open>\<^verbatim>\<open>ctkSettingsPanel::setSettings(settings)\<close>.\<close>

definition setSettings :: "address option \<Rightarrow> ctkSettingsPanel \<Rightarrow> error + ctkSettingsPanel" where
  "setSettings s st =
     (if Settings st = s then Inr st
      else updateProperties (st\<lparr>Settings := s\<rparr>))"

text \<open>
  \<^verbatim>\<open>ctkSettingsPanel::registerProperty(key, object, property, signal, label, options)\<close>.
  The signal mapper it creates is recorded as a connection from the object's signal to
  \<^verbatim>\<open>updateSetting(key)\<close>.
\<close>

definition registerProperty ::
  "string \<Rightarrow> address option \<Rightarrow> string \<Rightarrow> string \<Rightarrow> string \<Rightarrow> nat \<Rightarrow> ctkSettingsPanel
     \<Rightarrow> error + ctkSettingsPanel" where
  "registerProperty key object property signal label options st =
     (let p0 = PropertyType_new\<lparr>Object := object, Property := property\<rparr>;
          live = PropertyType_value p0 (objects st);
          p1 = p0\<lparr>DefaultValue := live, PreviousValue := live, Label := label, Options := options\<rparr>;
          stored = (case Settings st of
                      None \<Rightarrow> None
                    | Some s \<Rightarrow> if QSettings_contains (stores st s) key
                                then Some (QSettings_value (stores st s) key) else None)
      in case (case stored of
                 None \<Rightarrow> Inr (p1, objects st)
               | Some v \<Rightarrow>
                   (case PropertyType_setValue (assertions st) p1 v (objects st) of
                      Inl e \<Rightarrow> Inl e
                    | Inr r \<Rightarrow> Inr (p1\<lparr>PreviousValue := v\<rparr>, snd r))) of
           Inl e \<Rightarrow> Inl e
         | Inr (p2, objs) \<Rightarrow>
             let st1 = st\<lparr>objects := objs,
                         Properties := QMap_insert key p2 (Properties st),
                         connections := connections st @ [(object, signal, key)]\<rparr>
             in if SaveToSettingsWhenRegister st1 then updateSetting key st1 else Inr st1)"

text \<open>The accessors \<^verbatim>\<open>defaultPropertyValue\<close>, \<^verbatim>\<open>previousPropertyValue\<close> and
  \<^verbatim>\<open>propertyValue\<close>.\<close>

definition defaultPropertyValue :: "string \<Rightarrow> ctkSettingsPanel \<Rightarrow> QVariant" where
  "defaultPropertyValue key st =
     (if \<not> QMap_contains (Properties st) key then Invalid
      else DefaultValue (QMap_value (Properties st) key))"

definition previousPropertyValue :: "string \<Rightarrow> ctkSettingsPanel \<Rightarrow> QVariant" where
  "previousPropertyValue key st =
     (if \<not> QMap_contains (Properties st) key then Invalid
      else PreviousValue (QMap_value (Properties st) key))"

definition propertyValue :: "string \<Rightarrow> ctkSettingsPanel \<Rightarrow> QVariant" where
  "propertyValue key st =
     (if \<not> QMap_contains (Properties st) key then Invalid
      else PropertyType_value (QMap_value (Properties st) key) (objects st))"

text \<open>\<^verbatim>\<open>ctkSettingsPanel::changedSettings() const\<close>.\<close>

definition changedSettings :: "ctkSettingsPanel \<Rightarrow> string list" where
  "changedSettings st =
     filter (\<lambda>key. let p = QMap_value (Properties st) key
                   in PreviousValue p \<noteq> PropertyType_value p (objects st))
       (QMap_keys (Properties st))"

text \<open>\<^verbatim>\<open>ctkSettingsPanel::applySettings()\<close>; its loop body first.\<close>

definition applySettings_body :: "ctkSettingsPanel \<Rightarrow> string \<Rightarrow> ctkSettingsPanel" where
  "applySettings_body st key =
     (let m = QMap_index key (Properties st);
          p = QMap_value m key
      in st\<lparr>Properties := QMap_insert key (p\<lparr>PreviousValue := PropertyType_value p (objects st)\<rparr>) m\<rparr>)"

definition applySettings :: "ctkSettingsPanel \<Rightarrow> ctkSettingsPanel" where
  "applySettings st = foldl applySettings_body st (QMap_keys (Properties st))"

text \<open>\<^verbatim>\<open>ctkSettingsPanel::resetSettings()\<close> and
  \<^verbatim>\<open>ctkSettingsPanel::restoreDefaultSettings()\<close>; their loop bodies first.\<close>

definition resetSettings_body :: "string \<Rightarrow> ctkSettingsPanel \<Rightarrow> error + ctkSettingsPanel" where
  "resetSettings_body key st =
     (let st1 = st\<lparr>Properties := QMap_index key (Properties st)\<rparr>
      in setSetting key (PreviousValue (QMap_value (Properties st1) key)) st1)"

definition resetSettings :: "ctkSettingsPanel \<Rightarrow> error + ctkSettingsPanel" where
  "resetSettings st = foreach (QMap_keys (Properties st)) resetSettings_body st"

definition restoreDefaultSettings_body :: "string \<Rightarrow> ctkSettingsPanel \<Rightarrow> error + ctkSettingsPanel" where
  "restoreDefaultSettings_body key st =
     (let st1 = st\<lparr>Properties := QMap_index key (Properties st)\<rparr>
      in setSetting key (DefaultValue (QMap_value (Properties st1) key)) st1)"

definition restoreDefaultSettings :: "ctkSettingsPanel \<Rightarrow> error + ctkSettingsPanel" where
  "restoreDefaultSettings st = foreach (QMap_keys (Properties st)) restoreDefaultSettings_body st"

section \<open>The environment of the panel\<close>

text \<open>
  The constructor of the panel: no store attached, an empty registry and
  \<open>SaveToSettingsWhenRegister\<close> set. The heaps and the assertion switch are those of
  the process the panel is created in.
\<close>

definition ctkSettingsPanel_new ::
  "(address \<Rightarrow> QObject) \<Rightarrow> (address \<Rightarrow> QSettings) \<Rightarrow> bool \<Rightarrow> ctkSettingsPanel" where
  "ctkSettingsPanel_new objs strs asserts =
     \<lparr>Settings = None, Properties = [], SaveToSettingsWhenRegister = True,
      objects = objs, stores = strs, connections = [], warnings = [], settingChanged = [],
      assertions = asserts\<rparr>"

text \<open>
  The owner of a live object edits one of its properties, and the object emits its
  change signal: every \<^verbatim>\<open>updateSetting(key)\<close> that \<^verbatim>\<open>registerProperty\<close> connected to
  this signal of this object runs, in the order of connection. Whether an object emits
  a signal is its own business: in the model a write by the panel's own
  \<^verbatim>\<open>PropertyType::setValue\<close> does not re-enter the panel.
\<close>

definition objectEdited ::
  "address \<Rightarrow> string \<Rightarrow> QVariant \<Rightarrow> string \<Rightarrow> ctkSettingsPanel \<Rightarrow> error + ctkSettingsPanel" where
  "objectEdited a n v signal st =
     (let st1 = st\<lparr>objects := (objects st)(a := snd (QObject_setProperty n v (objects st a)))\<rparr>
      in foreach (map (\<lambda>c. snd (snd c))
                    (filter (\<lambda>c. fst c = Some a \<and> fst (snd c) = signal) (connections st1)))
           updateSetting st1)"

text \<open>The public operations of the panel that change its state, as one type.\<close>

datatype operation =
    RegisterProperty string "address option" string string string nat
  | SetSettings "address option"
  | UpdateProperties
  | UpdateSetting string
  | SetSetting string QVariant
  | ApplySettings
  | ResetSettings
  | RestoreDefaultSettings

fun perform :: "operation \<Rightarrow> ctkSettingsPanel \<Rightarrow> error + ctkSettingsPanel" where
  "perform (RegisterProperty key object property signal label options) st =
     registerProperty key object property signal label options st"
| "perform (SetSettings s) st = setSettings s st"
| "perform UpdateProperties st = updateProperties st"
| "perform (UpdateSetting key) st = updateSetting key st"
| "perform (SetSetting key v) st = setSetting key v st"
| "perform ApplySettings st = Inr (applySettings st)"
| "perform ResetSettings st = resetSettings st"
| "perform RestoreDefaultSettings st = restoreDefaultSettings st"

text \<open>Sequencing of calls that may abort, and reading a result off the final state.\<close>

definition and_then :: "error + 'a \<Rightarrow> ('a \<Rightarrow> error + 'b) \<Rightarrow> error + 'b" where
  "and_then r f = (case r of Inl e \<Rightarrow> Inl e | Inr x \<Rightarrow> f x)"

definition result_of :: "('a \<Rightarrow> 'b) \<Rightarrow> error + 'a \<Rightarrow> error + 'b" where
  "result_of f r = (case r of Inl e \<Rightarrow> Inl e | Inr x \<Rightarrow> Inr (f x))"

subsection \<open>Predicates of the statements\<close>

text \<open>
  The live object accepts a value for a tracked property: the target is not null, the
  property name is not empty, and the object declares the property with the type of
  the value. This is the precondition under which \<^verbatim>\<open>setProperty\<close> returns true.
\<close>

definition accepts :: "(address \<Rightarrow> QObject) \<Rightarrow> PropertyType \<Rightarrow> QVariant \<Rightarrow> bool" where
  "accepts objs p v =
     (case Object p of
        None \<Rightarrow> False
      | Some a \<Rightarrow>
          Property p \<noteq> [] \<and>
          (case PropertyType_metaProperty p objs of
             None \<Rightarrow> False
           | Some m \<Rightarrow> QVariant_typeName v = Some (mp_typeName m)))"

text \<open>A key is committed when the recorded previous value of its entry is the live
  value of its target.\<close>

definition committed :: "ctkSettingsPanel \<Rightarrow> string \<Rightarrow> bool" where
  "committed st k =
     (PreviousValue (QMap_value (Properties st) k)
        = PropertyType_value (QMap_value (Properties st) k) (objects st))"

text \<open>The tracked property as \<^verbatim>\<open>registerProperty\<close> has it once the target and the
  property name are assigned (lines 240 to 242).\<close>

definition binding :: "address option \<Rightarrow> string \<Rightarrow> PropertyType" where
  "binding object property = PropertyType_new\<lparr>Object := object, Property := property\<rparr>"

text \<open>The flag \<^verbatim>\<open>setValue\<close> returned and the live value read back after it.\<close>

definition value_after ::
  "PropertyType \<Rightarrow> error + (bool \<times> (address \<Rightarrow> QObject)) \<Rightarrow> error + (bool \<times> QVariant)" where
  "value_after p r = result_of (\<lambda>x. (fst x, PropertyType_value p (snd x))) r"

text \<open>The live value read back after \<^verbatim>\<open>setValue\<close>, whatever flag it returned.\<close>

definition written_value ::
  "PropertyType \<Rightarrow> error + (bool \<times> (address \<Rightarrow> QObject)) \<Rightarrow> error + QVariant" where
  "written_value p r = result_of (\<lambda>x. PropertyType_value p (snd x)) r"

text \<open>Every registered key has a target that accepts the recorded previous value of
  the key.\<close>

definition targets_accept :: "ctkSettingsPanel \<Rightarrow> bool" where
  "targets_accept st =
     (\<forall>k \<in> set (QMap_keys (Properties st)).
        accepts (objects st) (QMap_value (Properties st) k) (PreviousValue (QMap_value (Properties st) k)))"

text \<open>Registered keys that track the same property of the same object have the same
  recorded previous value (in particular, when no two keys share a target property).\<close>

definition targets_agree :: "ctkSettingsPanel \<Rightarrow> bool" where
  "targets_agree st =
     (\<forall>k \<in> set (QMap_keys (Properties st)). \<forall>k' \<in> set (QMap_keys (Properties st)).
        Object (QMap_value (Properties st) k) = Object (QMap_value (Properties st) k')
        \<and> Property (QMap_value (Properties st) k) = Property (QMap_value (Properties st) k')
        \<longrightarrow> PreviousValue (QMap_value (Properties st) k) = PreviousValue (QMap_value (Properties st) k'))"







subsection \<open>Concrete objects, stores and panels\<close>

text \<open>A spin box with an \<open>int\<close> property \<open>value\<close>, currently 12, and a list widget
  with a \<open>QStringList\<close> property \<open>items\<close>.\<close>

definition spinBox :: QObject where
  "spinBox =
     \<lparr>metaObject = [\<lparr>mp_name = ''value'', mp_typeName = ''int''\<rparr>],
      propertyValues = (\<lambda>n. Invalid)(''value'' := VInt 12)\<rparr>"

definition listWidget :: QObject where
  "listWidget =
     \<lparr>metaObject = [\<lparr>mp_name = ''items'', mp_typeName = ''QStringList''\<rparr>],
      propertyValues = (\<lambda>n. Invalid)(''items'' := VStringList [''a'', ''b''])\<rparr>"

definition emptyStore :: QSettings where
  "emptyStore = \<lparr>entries = Map.empty, status = NoError\<rparr>"

definition fontStore :: QSettings where
  "fontStore = \<lparr>entries = [''fontSize'' \<mapsto> VInt 14], status = NoError\<rparr>"

definition brokenStore :: QSettings where
  "brokenStore = \<lparr>entries = Map.empty, status = AccessError\<rparr>"

definition textStore :: QSettings where
  "textStore = \<lparr>entries = [''fontSize'' \<mapsto> VString ''abc''], status = NoError\<rparr>"

text \<open>A process with the spin box at address 0 and the list widget at every other
  address, and the given store at every store address.\<close>

definition widgets :: "address \<Rightarrow> QObject" where
  "widgets a = (if a = 0 then spinBox else listWidget)"

definition panel_with :: "QSettings \<Rightarrow> bool \<Rightarrow> ctkSettingsPanel" where
  "panel_with store asserts = ctkSettingsPanel_new widgets (\<lambda>a. store) asserts"

text \<open>The call that registers the spin box's value under the key \<open>fontSize\<close>.\<close>

definition register_fontSize :: "ctkSettingsPanel \<Rightarrow> error + ctkSettingsPanel" where
  "register_fontSize =
     registerProperty ''fontSize'' (Some 0) ''value'' ''valueChanged(int)'' ''Font size'' 0"

text \<open>The panel after the store (holding no key) has been attached at address 0 and
  the spin box's value registered under \<open>fontSize\<close>.\<close>

definition fontSize_panel :: "QSettings \<Rightarrow> bool \<Rightarrow> ctkSettingsPanel" where
  "fontSize_panel store asserts =
     \<lparr>Settings = Some 0,
      Properties = [(''fontSize'',
         \<lparr>Object = Some 0, Property = ''value'', PreviousValue = VInt 12, DefaultValue = VInt 12,
          Label = ''Font size'', Options = 0\<rparr>)],
      SaveToSettingsWhenRegister = True,
      objects = widgets,
      stores = (\<lambda>a. store)(0 := QSettings_setValue ''fontSize'' (VInt 12) store),
      connections = [(Some 0, ''valueChanged(int)'', ''fontSize'')],
      warnings = (if status store = NoError then [] else [write_warning (status store) ''fontSize'']),
      settingChanged = [(''fontSize'', VInt 12)],
      assertions = asserts\<rparr>"

text \<open>The panel after the empty store has been attached at address 0, nothing
  registered.\<close>

definition attached_panel :: "bool \<Rightarrow> ctkSettingsPanel" where
  "attached_panel asserts = (panel_with emptyStore asserts)\<lparr>Settings := Some 0\<rparr>"

text \<open>Tracked properties for the list widget's items and the spin box's value.\<close>

definition items_property :: PropertyType where
  "items_property = PropertyType_new\<lparr>Object := Some 1, Property := ''items''\<rparr>"

definition value_property :: PropertyType where
  "value_property = PropertyType_new\<lparr>Object := Some 0, Property := ''value''\<rparr>"

text \<open>The panel after a store holding 14 under \<open>fontSize\<close> has been attached at
  address 0, nothing registered.\<close>

definition stored_panel :: "bool \<Rightarrow> ctkSettingsPanel" where
  "stored_panel asserts = (panel_with fontStore asserts)\<lparr>Settings := Some 0\<rparr>"

text \<open>The panel \<open>fontSize_panel\<close> after the user has set the spin box to 14.\<close>

definition edited_panel :: "bool \<Rightarrow> ctkSettingsPanel" where
  "edited_panel asserts =
     (fontSize_panel emptyStore asserts)
       \<lparr>objects := widgets(0 := spinBox\<lparr>propertyValues := (propertyValues spinBox)(''value'' := VInt 14)\<rparr>),
        stores := (\<lambda>a. emptyStore)(0 := QSettings_setValue ''fontSize'' (VInt 14) emptyStore),
        settingChanged := [(''fontSize'', VInt 12), (''fontSize'', VInt 14)]\<rparr>"

text \<open>The panel with the spin box's value registered under \<open>fontSize\<close> and no store
  attached, in a process whose stores hold 14 under \<open>fontSize\<close>.\<close>

definition unattached_panel :: "bool \<Rightarrow> ctkSettingsPanel" where
  "unattached_panel asserts =
     (panel_with fontStore asserts)
       \<lparr>Properties := [(''fontSize'',
          \<lparr>Object = Some 0, Property = ''value'', PreviousValue = VInt 12, DefaultValue = VInt 12,
           Label = ''Font size'', Options = 0\<rparr>)],
        connections := [(Some 0, ''valueChanged(int)'', ''fontSize'')]\<rparr>"

named_theorems panel_defs \<open>the definitions a concrete run of the panel unfolds\<close>

declare
  isValid_def [panel_defs] QObject_property_def [panel_defs] QObject_setProperty_def [panel_defs]
  QSettings_contains_def [panel_defs] QSettings_value_def [panel_defs]
  QSettings_setValue_def [panel_defs] PropertyType_new_def [panel_defs]
  PropertyType_value_def [panel_defs] PropertyType_metaProperty_def [panel_defs]
  PropertyType_setValue_def [panel_defs] QMap_keys_def [panel_defs] QMap_contains_def [panel_defs]
  QMap_value_def [panel_defs] QMap_index_def [panel_defs] write_warning_def [panel_defs]
  setSetting_def [panel_defs] updateSetting_def [panel_defs] updateProperties_body_def [panel_defs]
  updateProperties_def [panel_defs] setSettings_def [panel_defs] registerProperty_def [panel_defs]
  defaultPropertyValue_def [panel_defs] previousPropertyValue_def [panel_defs]
  propertyValue_def [panel_defs] changedSettings_def [panel_defs] applySettings_body_def [panel_defs]
  applySettings_def [panel_defs] resetSettings_body_def [panel_defs] resetSettings_def [panel_defs]
  restoreDefaultSettings_body_def [panel_defs] restoreDefaultSettings_def [panel_defs]
  ctkSettingsPanel_new_def [panel_defs] objectEdited_def [panel_defs] and_then_def [panel_defs]
  result_of_def [panel_defs] accepts_def [panel_defs] spinBox_def [panel_defs]
  listWidget_def [panel_defs] emptyStore_def [panel_defs] fontStore_def [panel_defs]
  brokenStore_def [panel_defs] textStore_def [panel_defs] widgets_def [panel_defs] panel_with_def [panel_defs]
  register_fontSize_def [panel_defs] Let_def [panel_defs]
  binding_def [panel_defs] written_value_def [panel_defs]

section \<open>Facts about the collaborators and the registry\<close>

subsection \<open>QMap\<close>

lemma map_of_QMap_insert: "map_of (QMap_insert key p m) = (map_of m)(key \<mapsto> p)"
  by (induction m) auto

lemma QMap_value_insert:
  "QMap_value (QMap_insert key p m) k = (if k = key then p else QMap_value m k)"
  by (simp add: QMap_value_def map_of_QMap_insert)

lemma QMap_contains_insert:
  "QMap_contains (QMap_insert key p m) k = (k = key \<or> QMap_contains m k)"
  by (simp add: QMap_contains_def map_of_QMap_insert)

lemma QMap_contains_keys: "QMap_contains m k = (k \<in> set (QMap_keys m))"
  by (simp add: QMap_contains_def QMap_keys_def map_of_eq_None_iff)

lemma QMap_keys_insert: "set (QMap_keys (QMap_insert key p m)) = insert key (set (QMap_keys m))"
  using QMap_contains_insert [of key p m] by (auto simp: QMap_contains_keys [symmetric])

lemma QMap_index_present: "QMap_contains m key \<Longrightarrow> QMap_index key m = m"
  by (simp add: QMap_index_def)

lemma QMap_value_index: "QMap_value (QMap_index key m) k = QMap_value m k"
  by (simp add: QMap_index_def QMap_value_insert) (simp add: QMap_value_def QMap_contains_def)

lemma QMap_contains_index: "QMap_contains (QMap_index key m) k = (k = key \<or> QMap_contains m k)"
  by (auto simp: QMap_index_def QMap_contains_insert)

lemma QMap_keys_index: "set (QMap_keys (QMap_index key m)) = insert key (set (QMap_keys m))"
  using QMap_contains_index [of key m] by (auto simp: QMap_contains_keys [symmetric])

subsection \<open>Writes to a live object\<close>

lemma setProperty_metaObject: "metaObject (snd (QObject_setProperty n v obj)) = metaObject obj"
  by (simp add: QObject_setProperty_def split: option.splits)

lemma setProperty_other:
  "n' \<noteq> n \<Longrightarrow> propertyValues (snd (QObject_setProperty n v obj)) n' = propertyValues obj n'"
  by (simp add: QObject_setProperty_def split: option.splits)

lemma setValue_metaObject:
  "PropertyType_setValue dbg p v objs = Inr r \<Longrightarrow> metaObject (snd r a) = metaObject (objs a)"
  by (auto simp: PropertyType_setValue_def Let_def setProperty_metaObject split: option.splits if_splits)

lemma setValue_other:
  "PropertyType_setValue dbg p v objs = Inr r \<Longrightarrow> Object p \<noteq> Some a \<or> Property p \<noteq> n
     \<Longrightarrow> propertyValues (snd r a) n = propertyValues (objs a) n"
  by (auto simp: PropertyType_setValue_def Let_def setProperty_other split: option.splits if_splits)

lemma setValue_accepts:
  assumes "accepts objs p v" "Object p = Some a"
  shows "PropertyType_setValue dbg p v objs =
           Inr (True, objs(a := (objs a)\<lparr>propertyValues := (propertyValues (objs a))(Property p := v)\<rparr>))"
  using assms
  by (auto simp: accepts_def PropertyType_setValue_def PropertyType_metaProperty_def Let_def
      QObject_setProperty_def isValid_def split: option.splits)

lemma metaProperty_cong:
  "(\<And>a. metaObject (objs' a) = metaObject (objs a))
     \<Longrightarrow> PropertyType_metaProperty p objs' = PropertyType_metaProperty p objs"
  by (simp add: PropertyType_metaProperty_def split: option.splits)

lemma accepts_cong:
  assumes "\<And>a. metaObject (objs' a) = metaObject (objs a)"
  shows "accepts objs' p v = accepts objs p v"
  unfolding accepts_def metaProperty_cong [of objs' objs, OF assms] by (rule refl)

lemma value_after_accepts:
  assumes "accepts objs p v" "PropertyType_setValue dbg p v objs = Inr r"
  shows "PropertyType_value p (snd r) = v" "fst r"
proof -
  from assms(1) obtain a where a: "Object p = Some a" and n: "Property p \<noteq> []"
    by (auto simp: accepts_def split: option.splits)
  from setValue_accepts [OF assms(1) a, of dbg] assms(2)
  have r: "r = (True, objs(a := (objs a)\<lparr>propertyValues := (propertyValues (objs a))(Property p := v)\<rparr>))"
    by simp
  show "PropertyType_value p (snd r) = v"
    by (simp add: r PropertyType_value_def a n QObject_property_def)
  show "fst r" by (simp add: r)
qed

lemma value_other:
  assumes "PropertyType_setValue dbg p v objs = Inr r" "Object q \<noteq> Object p \<or> Property q \<noteq> Property p"
  shows "PropertyType_value q (snd r) = PropertyType_value q objs"
proof (cases "Object q")
  case None
  then show ?thesis by (simp add: PropertyType_value_def)
next
  case (Some a)
  with assms(2) have "Object p \<noteq> Some a \<or> Property p \<noteq> Property q" by auto
  from setValue_other [OF assms(1) this] Some show ?thesis
    by (simp add: PropertyType_value_def QObject_property_def)
qed

subsection \<open>setSetting, unfolded\<close>

lemma setSetting_None: "Settings st = None \<Longrightarrow> setSetting key v st = Inr st"
  by (simp add: setSetting_def)

lemma setSetting_Some:
  assumes "Settings st = Some s"
  shows "setSetting key v st =
    (case PropertyType_setValue (assertions st) (QMap_value (Properties st) key) v (objects st) of
       Inl e \<Rightarrow> Inl e
     | Inr r \<Rightarrow> Inr (st\<lparr>stores := (stores st)(s := QSettings_setValue key v (stores st s)),
                      Properties := QMap_index key (Properties st),
                      objects := snd r,
                      warnings := (if status (stores st s) \<noteq> NoError
                                   then warnings st @ [write_warning (status (stores st s)) key]
                                   else warnings st),
                      settingChanged := (if QSettings_value (stores st s) key \<noteq> v
                                         then settingChanged st @ [(key, v)]
                                         else settingChanged st)\<rparr>))"
  using assms
  by (simp add: setSetting_def Let_def QMap_value_index QSettings_setValue_def split: sum.splits)

lemma setSetting_fields:
  assumes "Settings st = Some s" "setSetting key v st = Inr st'"
  shows "Properties st' = QMap_index key (Properties st)"
    and "Settings st' = Settings st"
    and "assertions st' = assertions st"
    and "SaveToSettingsWhenRegister st' = SaveToSettingsWhenRegister st"
    and "stores st' = (stores st)(s := QSettings_setValue key v (stores st s))"
    and "\<exists>r. PropertyType_setValue (assertions st) (QMap_value (Properties st) key) v (objects st) = Inr r
            \<and> objects st' = snd r"
proof -
  from assms(2) obtain r
    where r: "PropertyType_setValue (assertions st) (QMap_value (Properties st) key) v (objects st) = Inr r"
      and st': "st' = st\<lparr>stores := (stores st)(s := QSettings_setValue key v (stores st s)),
                      Properties := QMap_index key (Properties st),
                      objects := snd r,
                      warnings := (if status (stores st s) \<noteq> NoError
                                   then warnings st @ [write_warning (status (stores st s)) key]
                                   else warnings st),
                      settingChanged := (if QSettings_value (stores st s) key \<noteq> v
                                         then settingChanged st @ [(key, v)]
                                         else settingChanged st)\<rparr>"
    by (cases "PropertyType_setValue (assertions st) (QMap_value (Properties st) key) v (objects st)")
      (simp_all add: setSetting_Some [OF assms(1)])
  show "Properties st' = QMap_index key (Properties st)"
    and "Settings st' = Settings st"
    and "assertions st' = assertions st"
    and "SaveToSettingsWhenRegister st' = SaveToSettingsWhenRegister st"
    and "stores st' = (stores st)(s := QSettings_setValue key v (stores st s))"
    by (simp_all add: st')
  from r show "\<exists>r. PropertyType_setValue (assertions st) (QMap_value (Properties st) key) v (objects st) = Inr r
            \<and> objects st' = snd r"
    by (simp add: st')
qed

section \<open>changedSettings and applySettings\<close>

lemma value_PreviousValue_update [simp]:
  "PropertyType_value (p\<lparr>PreviousValue := v\<rparr>) objs = PropertyType_value p objs"
  by (simp add: PropertyType_value_def split: option.splits)

lemma applySettings_body_objects: "objects (applySettings_body st key) = objects st"
  by (simp add: applySettings_body_def Let_def)

lemma applySettings_body_value:
  "QMap_value (Properties (applySettings_body st key)) k =
     (if k = key
      then (QMap_value (Properties st) key)
             \<lparr>PreviousValue := PropertyType_value (QMap_value (Properties st) key) (objects st)\<rparr>
      else QMap_value (Properties st) k)"
  by (simp add: applySettings_body_def Let_def QMap_value_insert QMap_value_index)

lemma applySettings_body_keys:
  "set (QMap_keys (Properties (applySettings_body st key))) = insert key (set (QMap_keys (Properties st)))"
  by (simp add: applySettings_body_def Let_def QMap_keys_insert QMap_keys_index)

lemma applySettings_loop:
  "objects (foldl applySettings_body st ks) = objects st \<and>
   set (QMap_keys (Properties (foldl applySettings_body st ks))) = set (QMap_keys (Properties st)) \<union> set ks \<and>
   (\<forall>k \<in> set ks. committed (foldl applySettings_body st ks) k)"
proof (induction ks rule: rev_induct)
  case Nil
  show ?case by simp
next
  case (snoc key ks)
  let ?s = "foldl applySettings_body st ks"
  from snoc have obj: "objects ?s = objects st"
    and keys: "set (QMap_keys (Properties ?s)) = set (QMap_keys (Properties st)) \<union> set ks"
    and fin: "\<forall>k \<in> set ks. committed ?s k"
    by simp_all
  have "committed (applySettings_body ?s key) k" if "k \<in> set (ks @ [key])" for k
  proof (cases "k = key")
    case True
    then show ?thesis
      by (simp add: committed_def applySettings_body_value applySettings_body_objects)
  next
    case False
    with that fin have "committed ?s k" by simp
    with False show ?thesis
      by (simp add: committed_def applySettings_body_value applySettings_body_objects)
  qed
  then show ?case
    by (auto simp: applySettings_body_objects applySettings_body_keys obj keys)
qed

text \<open>
  C2. \<^verbatim>\<open>changedSettings()\<close> lists exactly the registered keys whose live value differs
  from the recorded previous value, and in every state it is empty right after
  \<^verbatim>\<open>applySettings()\<close>.
\<close>

theorem changedSettings_exact:
  "set (changedSettings st) =
     {key. QMap_contains (Properties st) key \<and> previousPropertyValue key st \<noteq> propertyValue key st}
   \<and> changedSettings (applySettings st) = []"
proof
  show "set (changedSettings st) =
     {key. QMap_contains (Properties st) key \<and> previousPropertyValue key st \<noteq> propertyValue key st}"
    by (auto simp: changedSettings_def previousPropertyValue_def propertyValue_def Let_def
        QMap_contains_keys)
next
  let ?s = "applySettings st"
  from applySettings_loop [of st "QMap_keys (Properties st)"]
  have keys: "set (QMap_keys (Properties ?s)) = set (QMap_keys (Properties st))"
    and fin: "\<forall>k \<in> set (QMap_keys (Properties st)). committed ?s k"
    by (simp_all add: applySettings_def)
  then have "\<forall>k \<in> set (QMap_keys (Properties ?s)). committed ?s k" by simp
  then show "changedSettings ?s = []"
    by (simp add: changedSettings_def Let_def committed_def filter_empty_conv)
qed

section \<open>The concrete panels are reachable\<close>

lemma widgets_unchanged:
  "widgets(0 := spinBox\<lparr>propertyValues := (propertyValues spinBox)(''value'' := VInt 12)\<rparr>) = widgets"
  by (auto simp: fun_eq_iff widgets_def spinBox_def)

lemma fontSize_panel_reached:
  "and_then (setSettings (Some 0) (panel_with emptyStore asserts)) register_fontSize
     = Inr (fontSize_panel emptyStore asserts)"
  "and_then (setSettings (Some 0) (panel_with brokenStore asserts)) register_fontSize
     = Inr (fontSize_panel brokenStore asserts)"
  using widgets_unchanged
  by (simp_all add: panel_defs fontSize_panel_def)

lemma attached_panel_reached:
  "setSettings (Some 0) (panel_with emptyStore asserts) = Inr (attached_panel asserts)"
  by (simp add: panel_defs attached_panel_def)

section \<open>setSetting\<close>

lemma setValue_no_assert: "\<exists>r. PropertyType_setValue False p v objs = Inr r"
  by (auto simp: PropertyType_setValue_def Let_def split: option.splits)

lemma setValue_null:
  "Object p = None \<Longrightarrow>
     PropertyType_setValue asserts p v objs = (if asserts then Inl AssertionFailed else Inr (False, objs))"
  by (simp add: PropertyType_setValue_def)

lemma setSetting_completes:
  assumes "Settings st = Some s"
    and "\<not> assertions st \<or> accepts (objects st) (QMap_value (Properties st) key) v"
  shows "\<exists>st'. setSetting key v st = Inr st'"
proof -
  from assms(2)
  have "\<exists>r. PropertyType_setValue (assertions st) (QMap_value (Properties st) key) v (objects st) = Inr r"
  proof
    assume "\<not> assertions st"
    then show ?thesis using setValue_no_assert by simp
  next
    assume a: "accepts (objects st) (QMap_value (Properties st) key) v"
    then obtain a where "Object (QMap_value (Properties st) key) = Some a"
      by (auto simp: accepts_def split: option.splits)
    from setValue_accepts [OF a this] show ?thesis by blast
  qed
  then show ?thesis
    by (auto simp: setSetting_Some [OF assms(1)])
qed

lemma setSetting_live:
  assumes "Settings st = Some s" "accepts (objects st) (QMap_value (Properties st) key) v"
    "setSetting key v st = Inr st'"
  shows "propertyValue key st' = v"
proof -
  from assms(1,3) obtain r
    where r: "PropertyType_setValue (assertions st) (QMap_value (Properties st) key) v (objects st) = Inr r"
      and o: "objects st' = snd r" and p: "Properties st' = QMap_index key (Properties st)"
    by (auto simp: setSetting_Some split: sum.splits)
  from value_after_accepts(1) [OF assms(2) r]
  show ?thesis
    by (simp add: propertyValue_def o p QMap_value_index QMap_contains_index)
qed

text \<open>
  C1, as the code has it. With a store attached, \<^verbatim>\<open>setSetting(key, v)\<close> on a registered
  key whose target accepts \<open>v\<close> completes; afterwards \<^verbatim>\<open>propertyValue(key)\<close> is \<open>v\<close>
  and the store holds \<open>v\<close> under the key, and \<^verbatim>\<open>previousPropertyValue(key)\<close> is what
  it was before the call: \<^verbatim>\<open>setSetting\<close> does not touch the recorded previous value.
\<close>

theorem setSetting_registered:
  assumes "Settings st = Some s" "QMap_contains (Properties st) key"
    and "accepts (objects st) (QMap_value (Properties st) key) v"
  shows "\<exists>st'. setSetting key v st = Inr st'
           \<and> propertyValue key st' = v
           \<and> QSettings_value (stores st' s) key = v
           \<and> previousPropertyValue key st' = previousPropertyValue key st"
proof -
  from setSetting_completes [OF assms(1)] assms(3)
  obtain st' where r: "setSetting key v st = Inr st'" by blast
  from setSetting_live [OF assms(1,3) r] have "propertyValue key st' = v" .
  moreover from r assms(1) have "QSettings_value (stores st' s) key = v"
    by (auto simp: setSetting_Some QSettings_value_def QSettings_setValue_def split: sum.splits)
  moreover from r assms(1,2) have "previousPropertyValue key st' = previousPropertyValue key st"
    by (auto simp: setSetting_Some previousPropertyValue_def QMap_index_present split: sum.splits)
  ultimately show ?thesis using r by blast
qed

theorem setSetting_registered_witness:
  "Settings (fontSize_panel emptyStore True) = Some 0
   \<and> QMap_contains (Properties (fontSize_panel emptyStore True)) ''fontSize''
   \<and> accepts (objects (fontSize_panel emptyStore True))
        (QMap_value (Properties (fontSize_panel emptyStore True)) ''fontSize'') (VInt 14)
   \<and> result_of (propertyValue ''fontSize'') (setSetting ''fontSize'' (VInt 14) (fontSize_panel emptyStore True))
        = Inr (VInt 14)
   \<and> result_of (previousPropertyValue ''fontSize'') (setSetting ''fontSize'' (VInt 14) (fontSize_panel emptyStore True))
        = Inr (previousPropertyValue ''fontSize'' (fontSize_panel emptyStore True))"
proof -
  let ?X = "fontSize_panel emptyStore True"
  have s: "Settings ?X = Some 0" by (simp add: fontSize_panel_def)
  have c: "QMap_contains (Properties ?X) ''fontSize''" by (simp add: fontSize_panel_def QMap_contains_def)
  have acc: "accepts (objects ?X) (QMap_value (Properties ?X) ''fontSize'') (VInt 14)"
    by (simp add: fontSize_panel_def panel_defs)
  from setSetting_registered [OF s c acc] obtain a
    where "setSetting ''fontSize'' (VInt 14) ?X = Inr a" "propertyValue ''fontSize'' a = VInt 14"
      "previousPropertyValue ''fontSize'' a = previousPropertyValue ''fontSize'' ?X" by blast
  then show ?thesis using s c acc by (simp add: result_of_def)
qed

text \<open>
  C1 as the spec states it fails: attach an empty store, register the spin box's value
  (12) under \<open>fontSize\<close>, call \<^verbatim>\<open>setSetting("fontSize", 14)\<close>. The live value is 14 and
  the recorded previous value is still 12.
\<close>

theorem setSetting_previous_counterexample:
  "result_of (propertyValue ''fontSize'')
     (and_then (and_then (setSettings (Some 0) (panel_with emptyStore True)) register_fontSize)
        (setSetting ''fontSize'' (VInt 14))) = Inr (VInt 14)
   \<and> result_of (previousPropertyValue ''fontSize'')
     (and_then (and_then (setSettings (Some 0) (panel_with emptyStore True)) register_fontSize)
        (setSetting ''fontSize'' (VInt 14))) = Inr (VInt 12)"
  by (simp add: fontSize_panel_reached) (simp add: panel_defs fontSize_panel_def)

text \<open>
  C6. With a store attached, a call \<^verbatim>\<open>setSetting(key, newValue)\<close> that returns has
  emitted \<^verbatim>\<open>settingChanged(key, newValue)\<close>, once, exactly when \<open>newValue\<close> differs
  from the value the store held for the key before the write, and has emitted nothing
  otherwise. The call returns whenever assertions are compiled out or the target
  accepts the value.
\<close>

theorem setSetting_notifies:
  assumes "Settings st = Some s"
  shows "(\<forall>st'. setSetting key v st = Inr st' \<longrightarrow>
            settingChanged st' =
              (if v \<noteq> QSettings_value (stores st s) key then settingChanged st @ [(key, v)]
               else settingChanged st))
       \<and> (\<not> assertions st \<or> accepts (objects st) (QMap_value (Properties st) key) v
            \<longrightarrow> (\<exists>st'. setSetting key v st = Inr st'))"
proof (intro conjI allI impI)
  fix st'
  assume "setSetting key v st = Inr st'"
  then show "settingChanged st' =
              (if v \<noteq> QSettings_value (stores st s) key then settingChanged st @ [(key, v)]
               else settingChanged st)"
    by (auto simp: setSetting_Some [OF assms] split: sum.splits)
next
  assume "\<not> assertions st \<or> accepts (objects st) (QMap_value (Properties st) key) v"
  with assms show "\<exists>st'. setSetting key v st = Inr st'" by (rule setSetting_completes)
qed

theorem setSetting_notifies_witness:
  "Settings (fontSize_panel emptyStore True) = Some 0
   \<and> result_of settingChanged (setSetting ''fontSize'' (VInt 14) (fontSize_panel emptyStore True))
       = Inr [(''fontSize'', VInt 12), (''fontSize'', VInt 14)]
   \<and> result_of settingChanged (setSetting ''fontSize'' (VInt 12) (fontSize_panel emptyStore True))
       = Inr [(''fontSize'', VInt 12)]"
proof -
  let ?X = "fontSize_panel emptyStore True"
  have s: "Settings ?X = Some 0" by (simp add: fontSize_panel_def)
  have acc: "accepts (objects ?X) (QMap_value (Properties ?X) ''fontSize'') (VInt i)" for i
    by (simp add: fontSize_panel_def panel_defs)
  note T = setSetting_notifies [OF s, of "''fontSize''"]
  from T [of "VInt 14"] acc obtain a where a: "setSetting ''fontSize'' (VInt 14) ?X = Inr a" by blast
  from T [of "VInt 12"] acc obtain b where b: "setSetting ''fontSize'' (VInt 12) ?X = Inr b" by blast
  from T [of "VInt 14"] a have "settingChanged a = [(''fontSize'', VInt 12), (''fontSize'', VInt 14)]"
    by (simp add: fontSize_panel_def QSettings_value_def QSettings_setValue_def)
  moreover from T [of "VInt 12"] b have "settingChanged b = [(''fontSize'', VInt 12)]"
    by (simp add: fontSize_panel_def QSettings_value_def QSettings_setValue_def)
  ultimately show ?thesis using s a b by (simp add: result_of_def)
qed




text \<open>
  C9, as the code has it. For a key that is not registered and with a store attached,
  \<^verbatim>\<open>setSetting(key, v)\<close> aborts at the assertion of \<^verbatim>\<open>PropertyType::setValue\<close> when
  assertions are compiled in. When they are compiled out it returns, having written
  \<open>v\<close> to the store, emitted \<^verbatim>\<open>settingChanged(key, v)\<close> exactly when \<open>v\<close> differs from
  the value stored before, and inserted a default entry with a null target for the key:
  the key is among the keys the whole-registry loops run over, no live object has
  changed, and \<^verbatim>\<open>propertyValue(key)\<close> is the invalid variant.
\<close>

theorem setSetting_unregistered:
  assumes "Settings st = Some s" "\<not> QMap_contains (Properties st) key"
  shows "(assertions st \<longrightarrow> setSetting key v st = Inl AssertionFailed)
       \<and> (\<not> assertions st \<longrightarrow>
            (\<exists>st'. setSetting key v st = Inr st'
               \<and> QSettings_value (stores st' s) key = v
               \<and> settingChanged st' =
                   (if v \<noteq> QSettings_value (stores st s) key then settingChanged st @ [(key, v)]
                    else settingChanged st)
               \<and> Properties st' = QMap_insert key PropertyType_new (Properties st)
               \<and> key \<in> set (QMap_keys (Properties st'))
               \<and> Object (QMap_value (Properties st') key) = None
               \<and> objects st' = objects st
               \<and> propertyValue key st' = Invalid))"
proof -
  from assms(2) have p: "QMap_value (Properties st) key = PropertyType_new"
    by (simp add: QMap_value_def QMap_contains_def)
  have n: "Object PropertyType_new = None" by (simp add: PropertyType_new_def)
  have i: "QMap_index key (Properties st) = QMap_insert key PropertyType_new (Properties st)"
    using assms(2) by (simp add: QMap_index_def)
  show ?thesis
    using assms(2)
    by (auto simp: setSetting_Some [OF assms(1)] p setValue_null [OF n] i QMap_keys_insert
        QMap_value_insert n propertyValue_def PropertyType_value_def
        QSettings_value_def QSettings_setValue_def)
qed

theorem setSetting_unregistered_witness:
  "Settings (attached_panel False) = Some 0
   \<and> \<not> QMap_contains (Properties (attached_panel False)) ''ghost''
   \<and> \<not> assertions (attached_panel False)
   \<and> result_of settingChanged (setSetting ''ghost'' (VInt 1) (attached_panel False)) = Inr [(''ghost'', VInt 1)]
   \<and> result_of changedSettings (setSetting ''ghost'' (VInt 1) (attached_panel False)) = Inr []
   \<and> result_of (QMap_keys \<circ> Properties) (setSetting ''ghost'' (VInt 1) (attached_panel False))
        = Inr [''ghost'']
   \<and> result_of (propertyValue ''ghost'') (setSetting ''ghost'' (VInt 1) (attached_panel False)) = Inr Invalid"
proof -
  let ?X = "attached_panel False"
  have s: "Settings ?X = Some 0" and c: "\<not> QMap_contains (Properties ?X) ''ghost''"
    and a: "\<not> assertions ?X"
    by (simp_all add: attached_panel_def panel_defs)
  from setSetting_unregistered [OF s c, of "VInt 1"] a obtain st'
    where r: "setSetting ''ghost'' (VInt 1) ?X = Inr st'"
      and e: "settingChanged st' =
                   (if VInt 1 \<noteq> QSettings_value (stores ?X 0) ''ghost'' then settingChanged ?X @ [(''ghost'', VInt 1)]
                    else settingChanged ?X)"
      and p: "Properties st' = QMap_insert ''ghost'' PropertyType_new (Properties ?X)"
      and o: "objects st' = objects ?X"
      and v: "propertyValue ''ghost'' st' = Invalid"
    by blast
  from e have "settingChanged st' = [(''ghost'', VInt 1)]"
    by (simp add: attached_panel_def panel_defs)
  moreover from p have "QMap_keys (Properties st') = [''ghost'']"
    by (simp add: attached_panel_def panel_defs)
  moreover from p o have "changedSettings st' = []"
    by (simp add: attached_panel_def panel_defs)
  ultimately show ?thesis using s c a r v by (simp add: result_of_def)
qed

text \<open>
  C9 as stated fails where assertions are compiled in: attach an empty store and call
  \<^verbatim>\<open>setSetting("ghost", 1)\<close> for the unregistered key \<open>ghost\<close>; the process aborts at
  \<^verbatim>\<open>Q_ASSERT(this->Object && !this->Property.isEmpty())\<close>, before any notification.
\<close>

theorem setSetting_unregistered_counterexample:
  "and_then (setSettings (Some 0) (panel_with emptyStore True)) (setSetting ''ghost'' (VInt 1))
     = Inl AssertionFailed"
  by (simp add: panel_defs)

section \<open>PropertyType::setValue and string lists\<close>

text \<open>
  C8. For a tracked property with a target and a name: when the object declares it as a
  \<open>QStringList\<close> and the incoming value is invalid, \<^verbatim>\<open>setValue\<close> succeeds and the live
  property holds the empty string list afterwards. In every other case the incoming
  value is handed to \<^verbatim>\<open>setProperty\<close> as it is.
\<close>

theorem setValue_QStringList:
  assumes "Object p = Some a" "Property p \<noteq> []"
  shows "(map_option mp_typeName (PropertyType_metaProperty p objs) = Some ''QStringList'' \<and> \<not> isValid v \<longrightarrow>
            (\<exists>objs'. PropertyType_setValue asserts p v objs = Inr (True, objs')
                \<and> PropertyType_value p objs' = VStringList []))
       \<and> (\<not> (map_option mp_typeName (PropertyType_metaProperty p objs) = Some ''QStringList'' \<and> \<not> isValid v) \<longrightarrow>
            PropertyType_setValue asserts p v objs =
              (if asserts \<and> \<not> fst (QObject_setProperty (Property p) v (objs a)) then Inl AssertionFailed
               else Inr (fst (QObject_setProperty (Property p) v (objs a)),
                         objs(a := snd (QObject_setProperty (Property p) v (objs a))))))"
  using assms
  by (auto simp: PropertyType_setValue_def PropertyType_metaProperty_def PropertyType_value_def
      QObject_property_def QObject_setProperty_def isValid_def Let_def)

theorem setValue_QStringList_witness:
  "Object items_property = Some 1 \<and> Property items_property \<noteq> []
   \<and> Object value_property = Some 0 \<and> Property value_property \<noteq> []
   \<and> value_after items_property (PropertyType_setValue True items_property Invalid widgets)
       = Inr (True, VStringList [])
   \<and> value_after items_property (PropertyType_setValue True items_property (VStringList [''c'']) widgets)
       = Inr (True, VStringList [''c''])
   \<and> value_after value_property (PropertyType_setValue True value_property (VInt 5) widgets)
       = Inr (True, VInt 5)
   \<and> value_after value_property (PropertyType_setValue False value_property Invalid widgets)
       = Inr (False, VInt 12)"
proof -
  have i: "Object items_property = Some 1" "Property items_property \<noteq> []"
    and v: "Object value_property = Some 0" "Property value_property \<noteq> []"
    by (simp_all add: items_property_def value_property_def)
  have ti: "map_option mp_typeName (PropertyType_metaProperty items_property widgets) = Some ''QStringList''"
    and tv: "map_option mp_typeName (PropertyType_metaProperty value_property widgets) \<noteq> Some ''QStringList''"
    by (simp_all add: items_property_def value_property_def panel_defs)
  from setValue_QStringList [OF i, of widgets Invalid True] ti
  have "value_after items_property (PropertyType_setValue True items_property Invalid widgets)
       = Inr (True, VStringList [])"
    by (auto simp: isValid_def value_after_def result_of_def)
  moreover from setValue_QStringList [OF i, of widgets "VStringList [''c'']" True]
  have "value_after items_property (PropertyType_setValue True items_property (VStringList [''c'']) widgets)
       = Inr (True, VStringList [''c''])"
    by (simp add: isValid_def value_after_def items_property_def panel_defs)
  moreover from setValue_QStringList [OF v, of widgets "VInt 5" True] tv
  have "value_after value_property (PropertyType_setValue True value_property (VInt 5) widgets)
       = Inr (True, VInt 5)"
    by (simp add: value_after_def value_property_def panel_defs)
  moreover from setValue_QStringList [OF v, of widgets Invalid False] tv
  have "value_after value_property (PropertyType_setValue False value_property Invalid widgets)
       = Inr (False, VInt 12)"
    by (simp add: value_after_def value_property_def panel_defs)
  ultimately show ?thesis using i v by simp
qed

section \<open>registerProperty with a stored value\<close>

lemma same_binding_setValue:
  assumes "Object p = Object q" "Property p = Property q"
  shows "PropertyType_setValue dbg p v objs = PropertyType_setValue dbg q v objs"
  unfolding PropertyType_setValue_def PropertyType_metaProperty_def assms by (rule refl)

lemma same_binding_value:
  assumes "Object p = Object q" "Property p = Property q"
  shows "PropertyType_value p objs = PropertyType_value q objs"
  unfolding PropertyType_value_def assms by (rule refl)


lemma updateSetting_Some:
  "Settings st = Some s \<Longrightarrow>
     updateSetting key st =
       setSetting key (PropertyType_value (QMap_value (Properties st) key) (objects st))
         (st\<lparr>Properties := QMap_index key (Properties st)\<rparr>)"
  by (simp add: updateSetting_def Let_def QMap_value_index)

lemma registerProperty_stored_unfold:
  assumes "Settings st = Some s" "QSettings_contains (stores st s) key"
  shows "registerProperty key object property signal label options st =
    (case PropertyType_setValue (assertions st) (binding object property)
            (QSettings_value (stores st s) key) (objects st) of
       Inl e \<Rightarrow> Inl e
     | Inr r \<Rightarrow>
         (let p2 = \<lparr>Object = object, Property = property,
                    PreviousValue = QSettings_value (stores st s) key,
                    DefaultValue = PropertyType_value (binding object property) (objects st),
                    Label = label, Options = options\<rparr>;
              st1 = st\<lparr>objects := snd r,
                       Properties := QMap_insert key p2 (Properties st),
                       connections := connections st @ [(object, signal, key)]\<rparr>
          in if SaveToSettingsWhenRegister st then updateSetting key st1 else Inr st1))"
proof -
  have "PropertyType_setValue dbg \<lparr>Object = object, Property = property,
            PreviousValue = pv, DefaultValue = d, Label = label, Options = options\<rparr> v objs
        = PropertyType_setValue dbg (binding object property) v objs"
    for dbg d pv v objs
    by (rule same_binding_setValue) (simp_all add: binding_def)
  then show ?thesis
    using assms
    by (simp add: registerProperty_def Let_def PropertyType_new_def binding_def split: sum.splits prod.splits)
qed


lemma stored_panel_reached:
  "setSettings (Some 0) (panel_with fontStore asserts) = Inr (stored_panel asserts)"
  by (simp add: panel_defs stored_panel_def)



section \<open>The default value of a key\<close>

lemma foreach_invariant:
  assumes "foreach ks f st = Inr st'" "P st"
    and "\<And>k s s'. k \<in> set ks \<Longrightarrow> P s \<Longrightarrow> f k s = Inr s' \<Longrightarrow> P s'"
  shows "P st'"
  using assms
proof (induction ks arbitrary: st)
  case Nil
  then show ?case by simp
next
  case (Cons k ks)
  from Cons.prems(1) obtain s1 where s1: "f k st = Inr s1" and rest: "foreach ks f s1 = Inr st'"
    by (auto split: sum.splits)
  from Cons.prems(3) [OF _ Cons.prems(2) s1] have "P s1" by simp
  moreover have "\<And>k' s s'. k' \<in> set ks \<Longrightarrow> P s \<Longrightarrow> f k' s = Inr s' \<Longrightarrow> P s'"
    using Cons.prems(3) by (meson list.set_intros(2))
  ultimately show ?case using rest Cons.IH by blast
qed

lemma default_index:
  "defaultPropertyValue k (st\<lparr>Properties := QMap_index key (Properties st)\<rparr>) = defaultPropertyValue k st"
  by (auto simp: defaultPropertyValue_def QMap_value_index QMap_contains_index)
     (simp add: QMap_value_def QMap_contains_def PropertyType_new_def)

lemma default_insert_same:
  assumes "DefaultValue p = DefaultValue (QMap_value (Properties st) key)" "QMap_contains (Properties st) key"
    and "Properties st' = QMap_insert key p (Properties st)"
  shows "defaultPropertyValue k st' = defaultPropertyValue k st"
  using assms by (auto simp: defaultPropertyValue_def QMap_value_insert QMap_contains_insert)

lemma setSetting_default:
  assumes "setSetting key v st = Inr st'"
  shows "defaultPropertyValue k st' = defaultPropertyValue k st"
proof (cases "Settings st")
  case None
  with assms show ?thesis by (simp add: setSetting_None)
next
  case (Some s)
  from setSetting_fields(1) [OF Some assms]
  have "defaultPropertyValue k st' = defaultPropertyValue k (st\<lparr>Properties := QMap_index key (Properties st)\<rparr>)"
    by (simp add: defaultPropertyValue_def)
  then show ?thesis by (simp add: default_index)
qed

lemma updateSetting_default:
  assumes "updateSetting key st = Inr st'"
  shows "defaultPropertyValue k st' = defaultPropertyValue k st"
proof (cases "Settings st")
  case None
  with assms show ?thesis by (simp add: updateSetting_def)
next
  case (Some s)
  with assms setSetting_default [of key _ "st\<lparr>Properties := QMap_index key (Properties st)\<rparr>" st' k]
  show ?thesis by (simp add: updateSetting_Some default_index)
qed

lemma updateProperties_body_default:
  assumes "updateProperties_body s key st = Inr st'"
  shows "defaultPropertyValue k st' = defaultPropertyValue k st"
proof (cases "QSettings_contains (stores st s) key")
  case False
  with assms show ?thesis by (simp add: updateProperties_body_def updateSetting_default)
next
  case True
  let ?m = "QMap_index key (Properties st)"
  let ?p = "QMap_value ?m key"
  from assms True
  have "Properties st' = QMap_insert key (?p\<lparr>PreviousValue := QSettings_value (stores st s) key\<rparr>) ?m"
    by (auto simp: updateProperties_body_def Let_def split: sum.splits)
  then have "defaultPropertyValue k st' = defaultPropertyValue k (st\<lparr>Properties := ?m\<rparr>)"
    by (intro default_insert_same [where key = key]) (simp_all add: QMap_contains_index)
  then show ?thesis by (simp add: default_index)
qed

lemma applySettings_body_default:
  "defaultPropertyValue k (applySettings_body st key) = defaultPropertyValue k st"
proof -
  let ?m = "QMap_index key (Properties st)"
  have "defaultPropertyValue k (applySettings_body st key) = defaultPropertyValue k (st\<lparr>Properties := ?m\<rparr>)"
    by (rule default_insert_same [where key = key])
       (simp_all add: applySettings_body_def Let_def QMap_contains_index)
  then show ?thesis by (simp add: default_index)
qed

lemma applySettings_default: "defaultPropertyValue k (applySettings st) = defaultPropertyValue k st"
proof -
  have "defaultPropertyValue k (foldl applySettings_body st ks) = defaultPropertyValue k st" for ks
    by (induction ks rule: rev_induct) (simp_all add: applySettings_body_default)
  then show ?thesis by (simp add: applySettings_def)
qed

lemma updateProperties_default:
  assumes "updateProperties st = Inr st'"
  shows "defaultPropertyValue k st' = defaultPropertyValue k st"
proof (cases "Settings st")
  case None
  with assms show ?thesis by (simp add: updateProperties_def)
next
  case (Some s)
  with assms have "foreach (QMap_keys (Properties st)) (updateProperties_body s) st = Inr st'"
    by (simp add: updateProperties_def)
  then show ?thesis
    by (rule foreach_invariant [where P = "\<lambda>x. defaultPropertyValue k x = defaultPropertyValue k st"])
       (simp_all add: updateProperties_body_default)
qed

lemma setSettings_default:
  assumes "setSettings s st = Inr st'"
  shows "defaultPropertyValue k st' = defaultPropertyValue k st"
proof (cases "Settings st = s")
  case True
  with assms show ?thesis by (simp add: setSettings_def)
next
  case False
  with assms have "updateProperties (st\<lparr>Settings := s\<rparr>) = Inr st'" by (simp add: setSettings_def)
  from updateProperties_default [OF this] show ?thesis by (simp add: defaultPropertyValue_def)
qed

lemma resetSettings_default:
  assumes "resetSettings st = Inr st'"
  shows "defaultPropertyValue k st' = defaultPropertyValue k st"
  using assms unfolding resetSettings_def
proof (rule foreach_invariant [where P = "\<lambda>x. defaultPropertyValue k x = defaultPropertyValue k st"])
  fix key s s'
  assume "defaultPropertyValue k s = defaultPropertyValue k st" "resetSettings_body key s = Inr s'"
  then show "defaultPropertyValue k s' = defaultPropertyValue k st"
    using setSetting_default [of key _ "s\<lparr>Properties := QMap_index key (Properties s)\<rparr>" s' k]
    by (simp add: resetSettings_body_def Let_def default_index)
qed simp

lemma restoreDefaultSettings_default:
  assumes "restoreDefaultSettings st = Inr st'"
  shows "defaultPropertyValue k st' = defaultPropertyValue k st"
  using assms unfolding restoreDefaultSettings_def
proof (rule foreach_invariant [where P = "\<lambda>x. defaultPropertyValue k x = defaultPropertyValue k st"])
  fix key s s'
  assume "defaultPropertyValue k s = defaultPropertyValue k st" "restoreDefaultSettings_body key s = Inr s'"
  then show "defaultPropertyValue k s' = defaultPropertyValue k st"
    using setSetting_default [of key _ "s\<lparr>Properties := QMap_index key (Properties s)\<rparr>" s' k]
    by (simp add: restoreDefaultSettings_body_def Let_def default_index)
qed simp

lemma registerProperty_unfold:
  assumes "registerProperty key object property signal label options st = Inr st'"
  shows "\<exists>p st1. DefaultValue p = PropertyType_value (binding object property) (objects st)
        \<and> Properties st1 = QMap_insert key p (Properties st)
        \<and> (st' = st1 \<or> updateSetting key st1 = Inr st')"
proof (cases "\<exists>s. Settings st = Some s \<and> QSettings_contains (stores st s) key")
  case True
  then obtain s where s: "Settings st = Some s" "QSettings_contains (stores st s) key" by blast
  let ?p = "\<lparr>Object = object, Property = property,
                    PreviousValue = QSettings_value (stores st s) key,
                    DefaultValue = PropertyType_value (binding object property) (objects st),
                    Label = label, Options = options\<rparr>"
  from assms obtain objs where
    "(if SaveToSettingsWhenRegister st
      then updateSetting key (st\<lparr>objects := objs, Properties := QMap_insert key ?p (Properties st),
                       connections := connections st @ [(object, signal, key)]\<rparr>)
      else Inr (st\<lparr>objects := objs, Properties := QMap_insert key ?p (Properties st),
                       connections := connections st @ [(object, signal, key)]\<rparr>)) = Inr st'"
    by (cases "PropertyType_setValue (assertions st) (binding object property)
            (QSettings_value (stores st s) key) (objects st)")
       (simp_all add: registerProperty_stored_unfold [OF s] Let_def)
  then have "st' = st\<lparr>objects := objs, Properties := QMap_insert key ?p (Properties st),
                       connections := connections st @ [(object, signal, key)]\<rparr>
      \<or> updateSetting key (st\<lparr>objects := objs, Properties := QMap_insert key ?p (Properties st),
                       connections := connections st @ [(object, signal, key)]\<rparr>) = Inr st'"
    by (auto split: if_splits)
  moreover have "DefaultValue ?p = PropertyType_value (binding object property) (objects st)" by simp
  moreover have "Properties (st\<lparr>objects := objs, Properties := QMap_insert key ?p (Properties st),
                       connections := connections st @ [(object, signal, key)]\<rparr>)
                 = QMap_insert key ?p (Properties st)" by simp
  ultimately show ?thesis by blast
next
  case False
  let ?p = "\<lparr>Object = object, Property = property,
                    PreviousValue = PropertyType_value (binding object property) (objects st),
                    DefaultValue = PropertyType_value (binding object property) (objects st),
                    Label = label, Options = options\<rparr>"
  let ?st1 = "st\<lparr>Properties := QMap_insert key ?p (Properties st),
                       connections := connections st @ [(object, signal, key)]\<rparr>"
  from False assms have "(if SaveToSettingsWhenRegister st then updateSetting key ?st1 else Inr ?st1) = Inr st'"
    by (auto simp: registerProperty_def Let_def binding_def PropertyType_new_def split: option.splits)
  then have "st' = ?st1 \<or> updateSetting key ?st1 = Inr st'"
    by (auto split: if_splits)
  moreover have "DefaultValue ?p = PropertyType_value (binding object property) (objects st)" by simp
  moreover have "Properties ?st1 = QMap_insert key ?p (Properties st)" by simp
  ultimately show ?thesis by blast
qed

lemma registerProperty_default:
  assumes "registerProperty key object property signal label options st = Inr st'"
  shows "defaultPropertyValue k st' =
           (if k = key then PropertyType_value (binding object property) (objects st)
            else defaultPropertyValue k st)"
proof -
  from registerProperty_unfold [OF assms] obtain p st1
    where d: "DefaultValue p = PropertyType_value (binding object property) (objects st)"
      and m: "Properties st1 = QMap_insert key p (Properties st)"
      and r: "st' = st1 \<or> updateSetting key st1 = Inr st'"
    by blast
  from r have "defaultPropertyValue k st' = defaultPropertyValue k st1"
    by (auto simp: updateSetting_default)
  also have "\<dots> = (if k = key then DefaultValue p else defaultPropertyValue k st)"
    by (simp add: defaultPropertyValue_def m QMap_value_insert QMap_contains_insert)
  finally show ?thesis by (simp add: d)
qed

text \<open>
  C3, as the code has it. After an operation of the panel that returns, the default
  value of a key is the live value that a \<^verbatim>\<open>registerProperty\<close> call for this very key
  read from its target at the time of the call (before any stored value is applied),
  whether or not the key was registered before; every other operation, and a
  registration of another key, leaves the default value of the key as it was.
\<close>

theorem defaultPropertyValue_perform:
  assumes "perform op st = Inr st'"
  shows "defaultPropertyValue key st' =
           (case op of
              RegisterProperty k object property signal label options \<Rightarrow>
                if k = key then PropertyType_value (binding object property) (objects st)
                else defaultPropertyValue key st
            | _ \<Rightarrow> defaultPropertyValue key st)"
proof (cases op)
  case (RegisterProperty k object property signal label options)
  with assms show ?thesis by (simp add: registerProperty_default)
next
  case (SetSettings s)
  with assms show ?thesis by (simp add: setSettings_default)
next
  case UpdateProperties
  with assms show ?thesis by (simp add: updateProperties_default)
next
  case (UpdateSetting k)
  with assms show ?thesis by (simp add: updateSetting_default)
next
  case (SetSetting k v)
  with assms show ?thesis by (simp add: setSetting_default)
next
  case ApplySettings
  with assms show ?thesis by (auto simp: applySettings_default)
next
  case ResetSettings
  with assms show ?thesis by (simp add: resetSettings_default)
next
  case RestoreDefaultSettings
  with assms show ?thesis by (simp add: restoreDefaultSettings_default)
qed

theorem defaultPropertyValue_perform_witness:
  "result_of (defaultPropertyValue ''fontSize'')
     (perform (RegisterProperty ''fontSize'' (Some 0) ''value'' ''valueChanged(int)'' ''Font size'' 0)
        (attached_panel True)) = Inr (VInt 12)
   \<and> defaultPropertyValue ''fontSize'' (fontSize_panel emptyStore True) = VInt 12
   \<and> result_of (defaultPropertyValue ''fontSize'')
     (perform (SetSetting ''fontSize'' (VInt 14)) (fontSize_panel emptyStore True)) = Inr (VInt 12)
   \<and> result_of (defaultPropertyValue ''fontSize'')
     (perform RestoreDefaultSettings (fontSize_panel emptyStore True)) = Inr (VInt 12)"
proof -
  let ?X = "fontSize_panel emptyStore True"
  have d: "defaultPropertyValue ''fontSize'' ?X = VInt 12"
    by (simp add: fontSize_panel_def panel_defs)
  have l: "PropertyType_value (binding (Some 0) ''value'') (objects (attached_panel True)) = VInt 12"
    by (simp add: attached_panel_def panel_defs)
  obtain a where a: "perform (RegisterProperty ''fontSize'' (Some 0) ''value'' ''valueChanged(int)'' ''Font size'' 0)
        (attached_panel True) = Inr a"
    using fontSize_panel_reached(1) [of True]
    by (simp add: attached_panel_reached and_then_def register_fontSize_def)
  obtain b where b: "perform (SetSetting ''fontSize'' (VInt 14)) ?X = Inr b"
    by (simp add: fontSize_panel_def panel_defs)
  obtain c where c: "perform RestoreDefaultSettings ?X = Inr c"
    by (simp add: fontSize_panel_def panel_defs)
  from defaultPropertyValue_perform [OF a, of "''fontSize''"] l
  have "defaultPropertyValue ''fontSize'' a = VInt 12" by simp
  moreover from defaultPropertyValue_perform [OF b, of "''fontSize''"] d
  have "defaultPropertyValue ''fontSize'' b = VInt 12" by simp
  moreover from defaultPropertyValue_perform [OF c, of "''fontSize''"] d
  have "defaultPropertyValue ''fontSize'' c = VInt 12" by simp
  ultimately show ?thesis using a b c d by (simp add: result_of_def)
qed

text \<open>
  C3 as stated fails: register the spin box's value (12) under \<open>fontSize\<close>, set it to
  14, and register the same key again. The default value was 12 after the first
  registration and is 14 after the second.
\<close>

theorem defaultPropertyValue_counterexample:
  "result_of (defaultPropertyValue ''fontSize'')
     (and_then (setSettings (Some 0) (panel_with emptyStore True)) register_fontSize) = Inr (VInt 12)
   \<and> result_of (defaultPropertyValue ''fontSize'')
     (and_then (and_then (and_then (setSettings (Some 0) (panel_with emptyStore True)) register_fontSize)
        (setSetting ''fontSize'' (VInt 14))) register_fontSize) = Inr (VInt 14)"
  by (simp add: fontSize_panel_reached) (simp add: panel_defs fontSize_panel_def)

section \<open>resetSettings\<close>

lemma foreach_total:
  assumes "J D st"
    and "\<And>k D s. k \<in> set ks \<Longrightarrow> J D s \<Longrightarrow> \<exists>s'. f k s = Inr s' \<and> J (insert k D) s'"
  shows "\<exists>st'. foreach ks f st = Inr st' \<and> J (D \<union> set ks) st'"
  using assms
proof (induction ks arbitrary: st D)
  case Nil
  then show ?case by simp
next
  case (Cons k ks)
  from Cons.prems(2) [of k D st] Cons.prems(1)
  obtain s1 where s1: "f k st = Inr s1" and j1: "J (insert k D) s1" by auto
  have "\<And>k' D s. k' \<in> set ks \<Longrightarrow> J D s \<Longrightarrow> \<exists>s'. f k' s = Inr s' \<and> J (insert k' D) s'"
    using Cons.prems(2) by (meson list.set_intros(2))
  from Cons.IH [OF j1 this]
  obtain st' where "foreach ks f s1 = Inr st'" "J (insert k D \<union> set ks) st'" by blast
  with s1 show ?case by simp
qed

lemma resetSettings_body_present:
  assumes "QMap_contains (Properties x) k"
  shows "resetSettings_body k x = setSetting k (PreviousValue (QMap_value (Properties x) k)) x"
  using assms by (simp add: resetSettings_body_def Let_def QMap_index_present)

lemma resetSettings_step:
  assumes st: "Settings st = Some s" "targets_accept st" "targets_agree st"
    and k: "k \<in> set (QMap_keys (Properties st))"
    and D: "D \<subseteq> set (QMap_keys (Properties st))"
    and x: "Settings x = Some s" "Properties x = Properties st"
      "\<And>a. metaObject (objects x a) = metaObject (objects st a)"
    and inv: "\<And>k'. k' \<in> D \<Longrightarrow> committed x k'
                \<and> QSettings_value (stores x s) k' = PreviousValue (QMap_value (Properties st) k')"
  shows "\<exists>x'. resetSettings_body k x = Inr x' \<and> Settings x' = Some s \<and> Properties x' = Properties st
           \<and> (\<forall>a. metaObject (objects x' a) = metaObject (objects st a))
           \<and> (\<forall>k' \<in> insert k D. committed x' k'
                \<and> QSettings_value (stores x' s) k' = PreviousValue (QMap_value (Properties st) k'))"
proof -
  let ?P = "\<lambda>k. QMap_value (Properties st) k"
  let ?pv = "PreviousValue (?P k)"
  from k have c: "QMap_contains (Properties x) k" by (simp add: QMap_contains_keys x(2))
  have body: "resetSettings_body k x = setSetting k ?pv x"
    by (simp add: resetSettings_body_present [OF c] x(2))
  from st(2) k have "accepts (objects st) (?P k) ?pv" unfolding targets_accept_def by blast
  then have acc: "accepts (objects x) (QMap_value (Properties x) k) ?pv"
    by (simp add: x(2) accepts_cong [of "objects x" "objects st", OF x(3)])
  from setSetting_completes [OF x(1)] acc obtain x' where r: "setSetting k ?pv x = Inr x'" by blast
  note f = setSetting_fields [OF x(1) r]
  from f(6) obtain w
    where w: "PropertyType_setValue (assertions x) (QMap_value (Properties x) k) ?pv (objects x) = Inr w"
      and o: "objects x' = snd w" by blast
  have props: "Properties x' = Properties st"
    using QMap_index_present [OF c] by (simp add: f(1) x(2))
  have meta: "metaObject (objects x' a) = metaObject (objects st a)" for a
    by (simp add: o setValue_metaObject [OF w] x(3))
  have live_k: "PropertyType_value (?P k) (objects x') = ?pv"
    using value_after_accepts(1) [OF acc w] by (simp add: o x(2))
  have "committed x' k' \<and> QSettings_value (stores x' s) k' = PreviousValue (?P k')"
    if k': "k' \<in> insert k D" for k'
  proof (cases "k' = k")
    case True
    then show ?thesis
      by (simp add: committed_def props live_k f(5) QSettings_value_def QSettings_setValue_def)
  next
    case False
    with k' have kD: "k' \<in> D" by simp
    with D have kk: "k' \<in> set (QMap_keys (Properties st))" by auto
    from inv [OF kD] have c': "PreviousValue (?P k') = PropertyType_value (?P k') (objects x)"
      and s': "QSettings_value (stores x s) k' = PreviousValue (?P k')"
      by (simp_all add: committed_def x(2))
    have "PropertyType_value (?P k') (objects x') = PreviousValue (?P k')"
    proof (cases "Object (?P k') = Object (?P k) \<and> Property (?P k') = Property (?P k)")
      case True
      then have "PropertyType_value (?P k') (objects x') = PropertyType_value (?P k) (objects x')"
        by (intro same_binding_value) simp_all
      from st(3) have "\<And>a b. a \<in> set (QMap_keys (Properties st)) \<Longrightarrow> b \<in> set (QMap_keys (Properties st))
          \<Longrightarrow> Object (?P a) = Object (?P b) \<Longrightarrow> Property (?P a) = Property (?P b)
          \<Longrightarrow> PreviousValue (?P a) = PreviousValue (?P b)"
        unfolding targets_agree_def by blast
      from this [OF kk k] True have "PreviousValue (?P k') = ?pv" by simp
      with \<open>PropertyType_value (?P k') (objects x') = PropertyType_value (?P k) (objects x')\<close>
      show ?thesis by (simp add: live_k)
    next
      case False
      then have "Object (?P k') \<noteq> Object (QMap_value (Properties x) k)
                 \<or> Property (?P k') \<noteq> Property (QMap_value (Properties x) k)"
        by (simp add: x(2))
      from value_other [OF w this] c' show ?thesis by (simp add: o)
    qed
    moreover from False s' have "QSettings_value (stores x' s) k' = PreviousValue (?P k')"
      by (simp add: f(5) QSettings_value_def QSettings_setValue_def)
    ultimately show ?thesis by (simp add: committed_def props)
  qed
  then have all: "\<forall>k' \<in> insert k D. committed x' k'
                \<and> QSettings_value (stores x' s) k' = PreviousValue (?P k')" by blast
  have "resetSettings_body k x = Inr x'" by (simp add: body r)
  moreover have "Settings x' = Some s" by (simp add: f(2) x(1))
  moreover have "\<forall>a. metaObject (objects x' a) = metaObject (objects st a)" by (simp add: meta)
  ultimately have "resetSettings_body k x = Inr x' \<and> Settings x' = Some s \<and> Properties x' = Properties st
           \<and> (\<forall>a. metaObject (objects x' a) = metaObject (objects st a))
           \<and> (\<forall>k' \<in> insert k D. committed x' k'
                \<and> QSettings_value (stores x' s) k' = PreviousValue (QMap_value (Properties st) k'))"
    using props all by simp
  then show ?thesis ..
qed

text \<open>
  C5, as the code has it. With a store attached, every registered key's target
  accepting the key's previous value, and keys that share a target property agreeing
  on it, \<^verbatim>\<open>resetSettings()\<close> returns, \<^verbatim>\<open>changedSettings()\<close> is empty afterwards, and
  every key's live value and stored value are its recorded previous value, which is
  unchanged.
\<close>

theorem resetSettings_commits:
  assumes "Settings st = Some s" "targets_accept st" "targets_agree st"
  shows "\<exists>st'. resetSettings st = Inr st'
           \<and> changedSettings st' = []
           \<and> (\<forall>k \<in> set (QMap_keys (Properties st)).
                 propertyValue k st' = previousPropertyValue k st
                 \<and> QSettings_value (stores st' s) k = previousPropertyValue k st
                 \<and> previousPropertyValue k st' = previousPropertyValue k st)"
proof -
  let ?keys = "QMap_keys (Properties st)"
  define J where "J = (\<lambda>D x. D \<subseteq> set ?keys \<and> Settings x = Some s \<and> Properties x = Properties st
           \<and> (\<forall>a. metaObject (objects x a) = metaObject (objects st a))
           \<and> (\<forall>k' \<in> D. committed x k'
                \<and> QSettings_value (stores x s) k' = PreviousValue (QMap_value (Properties st) k')))"
  have init: "J {} st" by (simp add: J_def assms(1))
  have step: "\<exists>x'. resetSettings_body k x = Inr x' \<and> J (insert k D) x'"
    if "k \<in> set ?keys" "J D x" for k D x
  proof -
    from that(2) have D: "D \<subseteq> set ?keys" and x: "Settings x = Some s" "Properties x = Properties st"
      "\<And>a. metaObject (objects x a) = metaObject (objects st a)"
      and inv: "\<And>k'. k' \<in> D \<Longrightarrow> committed x k'
                \<and> QSettings_value (stores x s) k' = PreviousValue (QMap_value (Properties st) k')"
      by (simp_all add: J_def)
    from resetSettings_step [OF assms that(1) D x inv]
    obtain x' where "resetSettings_body k x = Inr x'" "Settings x' = Some s" "Properties x' = Properties st"
      "\<forall>a. metaObject (objects x' a) = metaObject (objects st a)"
      "\<forall>k' \<in> insert k D. committed x' k'
                \<and> QSettings_value (stores x' s) k' = PreviousValue (QMap_value (Properties st) k')"
      by blast
    moreover from that(1) D have "insert k D \<subseteq> set ?keys" by simp
    ultimately have "resetSettings_body k x = Inr x' \<and> J (insert k D) x'"
      unfolding J_def by simp
    then show ?thesis ..
  qed
  from foreach_total [of J "{}" st ?keys resetSettings_body, OF init step]
  obtain st' where "foreach ?keys resetSettings_body st = Inr st'" and j: "J (set ?keys) st'"
    by auto
  then have r: "resetSettings st = Inr st'" by (simp add: resetSettings_def)
  from j have p: "Properties st' = Properties st"
    and fin: "\<And>k. k \<in> set ?keys \<Longrightarrow> committed st' k
                \<and> QSettings_value (stores st' s) k = PreviousValue (QMap_value (Properties st) k)"
    by (simp_all add: J_def)
  have "changedSettings st' = []"
    using fin by (simp add: changedSettings_def Let_def filter_empty_conv p committed_def)
  moreover have "propertyValue k st' = previousPropertyValue k st
                 \<and> QSettings_value (stores st' s) k = previousPropertyValue k st
                 \<and> previousPropertyValue k st' = previousPropertyValue k st"
    if "k \<in> set ?keys" for k
    using fin [OF that] that
    by (simp add: propertyValue_def previousPropertyValue_def p committed_def QMap_contains_keys)
  ultimately show ?thesis using r by blast
qed

lemma edited_panel_reached:
  "objectEdited 0 ''value'' (VInt 14) ''valueChanged(int)'' (fontSize_panel emptyStore asserts)
     = Inr (edited_panel asserts)"
  by (simp add: panel_defs fontSize_panel_def edited_panel_def fun_upd_twist)

theorem resetSettings_commits_witness:
  "Settings (edited_panel True) = Some 0
   \<and> targets_accept (edited_panel True)
   \<and> targets_agree (edited_panel True)
   \<and> changedSettings (edited_panel True) = [''fontSize'']
   \<and> result_of changedSettings (resetSettings (edited_panel True)) = Inr []
   \<and> result_of (propertyValue ''fontSize'') (resetSettings (edited_panel True)) = Inr (VInt 12)"
proof -
  let ?X = "edited_panel True"
  have s: "Settings ?X = Some 0" and a: "targets_accept ?X" and g: "targets_agree ?X"
    and c: "changedSettings ?X = [''fontSize'']"
    and p: "previousPropertyValue ''fontSize'' ?X = VInt 12"
    and k: "''fontSize'' \<in> set (QMap_keys (Properties ?X))"
    by (simp_all add: edited_panel_def fontSize_panel_def targets_accept_def targets_agree_def panel_defs)
  from resetSettings_commits [OF s a g] k p obtain st'
    where "resetSettings ?X = Inr st'" "changedSettings st' = []" "propertyValue ''fontSize'' st' = VInt 12"
    by auto
  with s a g c show ?thesis by (simp add: result_of_def)
qed

text \<open>
  C5 as stated fails in a state with no store attached, where \<^verbatim>\<open>setSetting\<close> returns
  at once: register the spin box's value (12) under \<open>fontSize\<close> on a panel without a
  store, let the user set the spin box to 14, call \<^verbatim>\<open>resetSettings()\<close>; the key is
  still reported as changed.
\<close>

theorem resetSettings_no_store_counterexample:
  "result_of changedSettings
     (and_then (and_then (register_fontSize (panel_with emptyStore True))
        (objectEdited 0 ''value'' (VInt 14) ''valueChanged(int)'')) resetSettings)
     = Inr [''fontSize'']"
  by (simp add: panel_defs)

text \<open>With no store attached \<^verbatim>\<open>resetSettings()\<close> returns and changes nothing: each
  \<^verbatim>\<open>setSetting\<close> of the loop returns at line 211.\<close>

lemma foreach_unchanged:
  assumes "\<And>k. k \<in> set ks \<Longrightarrow> f k st = Inr st"
  shows "foreach ks f st = Inr st"
  using assms by (induction ks) simp_all

lemma resetSettings_no_store:
  assumes "Settings st = None"
  shows "resetSettings st = Inr st"
  unfolding resetSettings_def
proof (rule foreach_unchanged)
  fix k assume "k \<in> set (QMap_keys (Properties st))"
  then have "QMap_contains (Properties st) k" by (simp add: QMap_contains_keys)
  from resetSettings_body_present [OF this] assms
  show "resetSettings_body k st = Inr st" by (simp add: setSetting_None)
qed

section \<open>setSettings and updateProperties\<close>











subsection \<open>What a run of updateProperties leaves for each key\<close>










lemma unattached_panel_reached:
  "register_fontSize (panel_with fontStore asserts) = Inr (unattached_panel asserts)"
  by (simp add: panel_defs unattached_panel_def)


end
